theory Spec2Isabelle
  imports Complex_Main
begin

section \<open>Values of the language (lang.js)\<close>

text \<open>
  A JavaScript number is an IEEE-754 double. The model keeps the values that the
  comparison operators distinguish: NaN, the two infinities, negative zero and the finite
  values (\<open>Fin 0\<close> is positive zero). The arithmetic and bitwise operators of JavaScript
  round and truncate; they are not reimplemented but taken as a parameter (\<open>num_op\<close> of
  \<open>prims\<close> below), so every theorem holds for whatever those operators compute.
\<close>

datatype number = NaN | PosInf | NegInf | NegZero | Fin rat

text \<open>
  \<open>Data = Str | Sym | number | DataArray\<close>. A \<open>Sym\<close> is the string \<open>"sym!" + name\<close>, a
  \<open>Str\<close> the string \<open>"str!" + text\<close>; the constructors carry the part after the tag.
  \<open>Undefined\<close> is JavaScript's \<open>undefined\<close>: what an out-of-range index reads, and what
  \<open>step\<close> can return.
\<close>

datatype data = Undefined | Num number | Sym string | Str string | Arr "data list"

datatype error =
    NotDefined data          \<comment> \<open>TypeError(print(x) + " is not defined")\<close>
  | NotValidLambda data      \<comment> \<open>TypeError(print(fn) + " is not a valid lambda")\<close>
  | ExpectedSymbol data      \<comment> \<open>TypeError("expected symbol, got " + print(fn))\<close>
  | ExpectedNumber data      \<comment> \<open>TypeError("expected number, got " + print(value))\<close>
  | ExpectedConsPair         \<comment> \<open>TypeError("expected cons pair")\<close>
  | NativeTypeError          \<comment> \<open>TypeError of the runtime: a property read on undefined\<close>

text \<open>
  What the values do not determine is taken as a parameter. \<open>num_op P name [l, r]\<close> is
  the result of the JavaScript operator of the builtin \<open>name\<close> on numbers. A value of
  \<open>data\<close> has no object identity, but \<open>r === l\<close> on two arrays asks for it:
  \<open>same_object P l r path\<close> tells whether, when \<open>eql\<close> or \<open>neq\<close> compares the operands
  \<open>l\<close> and \<open>r\<close>, the two arrays met at the position \<open>path\<close> (the indices taken from the
  operands down to them) are one and the same object. One object has one content, so
  the answer is only used for arrays of equal content (\<open>strict_eq\<close> below).
\<close>

record prims =
  num_op :: "string \<Rightarrow> number list \<Rightarrow> number"
  same_object :: "data \<Rightarrow> data \<Rightarrow> nat list \<Rightarrow> bool"

abbreviation SYM_CONS :: data where "SYM_CONS \<equiv> Sym ''cons''"
abbreviation SYM_QUOTE :: data where "SYM_QUOTE \<equiv> Sym ''quote''"
abbreviation SYM_LAMBDA :: data where "SYM_LAMBDA \<equiv> Sym ''lambda''"
abbreviation SYM_IF :: data where "SYM_IF \<equiv> Sym ''if''"
abbreviation SYM_AND :: data where "SYM_AND \<equiv> Sym ''and''"
abbreviation SYM_OR :: data where "SYM_OR \<equiv> Sym ''or''"
abbreviation SYM_EQL :: data where "SYM_EQL \<equiv> Sym ''eql''"
abbreviation SYM_CAR :: data where "SYM_CAR \<equiv> Sym ''car''"
abbreviation SYM_DIV :: data where "SYM_DIV \<equiv> Sym ''div''"
abbreviation SYM_ADD :: data where "SYM_ADD \<equiv> Sym ''add''"

definition nil :: data where
  "nil = Arr [SYM_QUOTE, Arr []]"

definition true_term :: data where
  \<comment> \<open>\<open>true_\<close> of the source\<close>
  "true_term = Arr [SYM_QUOTE, Sym ''true'']"

subsection \<open>JavaScript primitives used by the source\<close>

fun typeof :: "data \<Rightarrow> string" where
  "typeof Undefined = ''undefined''"
| "typeof (Num n) = ''number''"
| "typeof (Sym s) = ''string''"
| "typeof (Str s) = ''string''"
| "typeof (Arr xs) = ''object''"

fun isSym :: "data \<Rightarrow> bool" where
  "isSym (Sym s) = True"
| "isSym v = False"

fun isArray :: "data \<Rightarrow> bool" where
  "isArray (Arr xs) = True"
| "isArray v = False"

definition idx :: "data list \<Rightarrow> nat \<Rightarrow> data" where
  \<comment> \<open>\<open>xs[i]\<close>: reading past the end gives \<open>undefined\<close>\<close>
  "idx xs i = (if i < length xs then xs ! i else Undefined)"

definition nullish :: "data \<Rightarrow> data \<Rightarrow> data" where
  \<comment> \<open>\<open>a ?? b\<close>\<close>
  "nullish a b = (if a = Undefined then b else a)"

fun zero_norm :: "number \<Rightarrow> number" where
  "zero_norm NegZero = Fin 0"
| "zero_norm n = n"

definition num_eq :: "number \<Rightarrow> number \<Rightarrow> bool" where
  \<comment> \<open>\<open>===\<close> on numbers: NaN equals nothing, the two zeros are equal\<close>
  "num_eq a b = (a \<noteq> NaN \<and> b \<noteq> NaN \<and> zero_norm a = zero_norm b)"

fun ord_key :: "number \<Rightarrow> int \<times> rat" where
  "ord_key NegInf = (-1, 0)"
| "ord_key PosInf = (1, 0)"
| "ord_key NegZero = (0, 0)"
| "ord_key NaN = (0, 0)"
| "ord_key (Fin q) = (0, q)"

definition num_lt :: "number \<Rightarrow> number \<Rightarrow> bool" where
  \<comment> \<open>\<open>a < b\<close> on numbers: false as soon as one side is NaN\<close>
  "num_lt a b = (a \<noteq> NaN \<and> b \<noteq> NaN \<and>
     (fst (ord_key a) < fst (ord_key b) \<or>
      (fst (ord_key a) = fst (ord_key b) \<and> snd (ord_key a) < snd (ord_key b))))"

definition num_le :: "number \<Rightarrow> number \<Rightarrow> bool" where
  "num_le a b = (num_lt a b \<or> num_eq a b)"

fun strict_eq :: "bool \<Rightarrow> data \<Rightarrow> data \<Rightarrow> bool" where
  \<comment> \<open>\<open>a === b\<close>. Two arrays are \<open>===\<close> exactly when they are the same object; the first
      argument says whether they are, and it counts only when the contents are equal.\<close>
  "strict_eq same Undefined Undefined = True"
| "strict_eq same (Num a) (Num b) = num_eq a b"
| "strict_eq same (Sym a) (Sym b) = (a = b)"
| "strict_eq same (Str a) (Str b) = (a = b)"
| "strict_eq same (Arr a) (Arr b) = (same \<and> a = b)"
| "strict_eq same a b = False"

fun truthy :: "data \<Rightarrow> bool" where
  "truthy Undefined = False"
| "truthy (Num n) = (n \<noteq> NaN \<and> zero_norm n \<noteq> Fin 0)"
| "truthy v = True"

section \<open>Helpers of the evaluator\<close>

lemma size_elem_less [termination_simp]: "x \<in> set xs \<Longrightarrow> size x < Suc (size_list size xs)"
  by (simp add: less_Suc_eq_le size_list_estimation')

lemma size_idx_less [termination_simp]: "size (idx xs i) < Suc (size_list size xs)"
  by (simp add: idx_def size_elem_less)

function print_ok :: "data \<Rightarrow> bool" where
  \<comment> \<open>whether \<open>print(data)\<close> returns a string; it throws when it reaches \<open>undefined\<close>\<close>
  "print_ok Undefined = False"
| "print_ok (Num n) = True"
| "print_ok (Sym s) = True"
| "print_ok (Str s) = True"
| "print_ok (Arr xs) =
     (if idx xs 0 = SYM_QUOTE then print_ok (nullish (idx xs 1) (Arr []))
      else list_all print_ok xs)"
  by pat_completeness auto
termination
proof (relation "measure size")
  show "wf (measure size)" by simp
next
  fix xs :: "data list"
  assume h: "idx xs 0 = SYM_QUOTE"
  then have "xs \<noteq> []" by (auto simp: idx_def)
  then obtain y ys where xs: "xs = y # ys" by (cases xs) auto
  with h have y: "y = SYM_QUOTE" by (simp add: idx_def)
  have "size (nullish (idx xs 1) (Arr [])) < size (Arr xs)"
    using size_idx_less [of xs 1] by (simp add: nullish_def xs y)
  then show "(nullish (idx xs 1) (Arr []), Arr xs) \<in> measure size" by simp
next
  fix xs :: "data list" and z
  assume "z \<in> set xs"
  then show "(z, Arr xs) \<in> measure size"
    by (simp add: size_elem_less)
qed

definition throw_printing :: "data \<Rightarrow> error \<Rightarrow> error" where
  \<comment> \<open>\<open>throw new TypeError(... + print(v))\<close>: the message is built first\<close>
  "throw_printing v e = (if print_ok v then e else NativeTypeError)"

definition isNil :: "data \<Rightarrow> bool" where
  "isNil input = (case input of
       Arr xs \<Rightarrow> idx xs 0 = SYM_QUOTE \<and> idx xs 1 = Arr []
     | _ \<Rightarrow> False)"

function equals :: "(nat list \<Rightarrow> bool) \<Rightarrow> data \<Rightarrow> data \<Rightarrow> bool" where
  \<comment> \<open>\<open>r.every((e, i) => equals(e, l[i]))\<close>: only the indices of \<open>r\<close> are visited, and the
      recursive call takes the element of \<open>r\<close> as its \<open>l\<close>. When \<open>r\<close> is an array and
      \<open>typeof l === typeof r\<close>, \<open>l\<close> is an array too. The first argument answers
      \<open>r === l\<close> for the arrays met at each position.\<close>
  "equals same l r =
     (typeof l = typeof r \<and>
      (strict_eq (same []) r l \<or>
       (case r of
          Arr rs \<Rightarrow>
            list_all
              (\<lambda>i. equals (\<lambda>path. same (i # path)) (rs ! i)
                     (case l of Arr ls \<Rightarrow> idx ls i | _ \<Rightarrow> Undefined))
              [0..<length rs]
        | _ \<Rightarrow> False)))"
  by pat_completeness auto
termination
proof (relation "measure (\<lambda>(same, l, r). size l + size r)")
  show "wf (measure (\<lambda>(same, l, r). size l + size r))" by simp
next
  fix same :: "nat list \<Rightarrow> bool" and l r :: data and rs :: "data list" and i :: nat
  assume r: "r = Arr rs" and "i \<in> set [0..<length rs]"
  then have "size (rs ! i) < size r" by (simp add: size_elem_less)
  moreover have "size (case l of Arr ls \<Rightarrow> idx ls i | _ \<Rightarrow> Undefined) \<le> size l"
    using size_idx_less by (cases l) (simp_all add: less_imp_le)
  ultimately show "((\<lambda>path. same (i # path), rs ! i,
        case l of Arr ls \<Rightarrow> idx ls i | _ \<Rightarrow> Undefined), same, l, r)
      \<in> measure (\<lambda>(same, l, r). size l + size r)"
    by simp
qed

declare equals.simps [simp del]

subsection \<open>The table of builtins\<close>

definition assertNumber :: "data \<Rightarrow> error + number" where
  "assertNumber v = (case v of
       Num n \<Rightarrow> Inr n
     | _ \<Rightarrow> Inl (throw_printing v (ExpectedNumber v)))"

definition assertCons :: "data \<Rightarrow> error + data list" where
  "assertCons v = (case v of
       Arr xs \<Rightarrow> if length xs = 3 \<and> idx xs 0 = SYM_CONS then Inr xs else Inl ExpectedConsPair
     | _ \<Rightarrow> Inl ExpectedConsPair)"

definition arith :: "string \<Rightarrow> prims \<Rightarrow> data list \<Rightarrow> error + data" where
  \<comment> \<open>\<open>assertNumber(l); assertNumber(r); return l op r\<close>, \<open>op\<close> the operator of the builtin\<close>
  "arith name P args =
     (case assertNumber (idx args 0) of
        Inl e \<Rightarrow> Inl e
      | Inr l \<Rightarrow> (case assertNumber (idx args 1) of
          Inl e \<Rightarrow> Inl e
        | Inr r \<Rightarrow> Inr (Num (num_op P name [l, r]))))"

definition ordering :: "(number \<Rightarrow> number \<Rightarrow> bool) \<Rightarrow> prims \<Rightarrow> data list \<Rightarrow> error + data" where
  \<comment> \<open>\<open>assertNumber(l); assertNumber(r); return l op r ? true_ : nil\<close>\<close>
  "ordering rel P args =
     (case assertNumber (idx args 0) of
        Inl e \<Rightarrow> Inl e
      | Inr l \<Rightarrow> (case assertNumber (idx args 1) of
          Inl e \<Rightarrow> Inl e
        | Inr r \<Rightarrow> Inr (if rel l r then true_term else nil)))"

definition builtin_typeof :: "data \<Rightarrow> data" where
  \<comment> \<open>the builtin \<open>typeof\<close>; a value whose \<open>typeof\<close> is \<open>"object"\<close> is an array\<close>
  "builtin_typeof v =
     (if isNil v then Arr [SYM_QUOTE, Sym ''nil'']
      else if typeof v = ''object'' then
        (case v of
           Arr xs \<Rightarrow>
             Arr [SYM_QUOTE,
                  if idx xs 0 = SYM_QUOTE \<and> isSym (idx xs 1) then Sym ''symbol'' else Sym ''list'']
         | _ \<Rightarrow> Undefined)
      else Arr [SYM_QUOTE, Sym (typeof v)])"

definition builtins :: "(string \<times> (prims \<Rightarrow> data list \<Rightarrow> error + data)) list" where
  \<comment> \<open>the object \<open>builtins\<close>: its keys in the order of the source, each function applied to
      the argument list \<open>input.slice(1)\<close>\<close>
  "builtins =
    [(''add'', arith ''add''), (''sub'', arith ''sub''), (''mul'', arith ''mul''),
     (''div'', arith ''div''), (''rem'', arith ''rem''), (''pow'', arith ''pow''),
     (''band'', arith ''band''), (''bor'', arith ''bor''), (''bxor'', arith ''bxor''),
     (''bnot'', \<lambda>P args. case assertNumber (idx args 0) of
                   Inl e \<Rightarrow> Inl e | Inr v \<Rightarrow> Inr (Num (num_op P ''bnot'' [v]))),
     (''shl'', arith ''shl''), (''shr'', arith ''shr''), (''shru'', arith ''shru''),
     (''eql'', \<lambda>P args. Inr (if equals (same_object P (idx args 0) (idx args 1))
                                      (idx args 0) (idx args 1) then true_term else nil)),
     (''neq'', \<lambda>P args. Inr (if \<not> equals (same_object P (idx args 0) (idx args 1))
                                      (idx args 0) (idx args 1) then true_term else nil)),
     (''gt'', ordering (\<lambda>l r. num_lt r l)),
     (''gte'', ordering (\<lambda>l r. num_le r l)),
     (''lt'', ordering (\<lambda>l r. num_lt l r)),
     (''lte'', ordering (\<lambda>l r. num_le l r)),
     (''not'', \<lambda>P args. Inr (if isNil (idx args 0) then true_term else nil)),
     (''cons'', \<lambda>P args. Inr (Arr [SYM_CONS, nullish (idx args 0) nil, nullish (idx args 1) nil])),
     (''car'', \<lambda>P args. case assertCons (idx args 0) of
                   Inl e \<Rightarrow> Inl e | Inr xs \<Rightarrow> Inr (idx xs 1)),
     (''cdr'', \<lambda>P args. case assertCons (idx args 0) of
                   Inl e \<Rightarrow> Inl e | Inr xs \<Rightarrow> Inr (idx xs 2)),
     (''typeof'', \<lambda>P args. Inr (builtin_typeof (idx args 0)))]"

section \<open>canStep\<close>

function canStep :: "data \<Rightarrow> error + bool" where
  "canStep Undefined = Inl NativeTypeError"
| "canStep (Num n) = Inr False"
| "canStep (Sym s) = Inr (map_of builtins s = None)"
| "canStep (Str s) = Inr False"
| "canStep (Arr xs) =
     (if idx xs 0 = SYM_CONS then
        (case canStep (nullish (idx xs 1) nil) of
           Inl e \<Rightarrow> Inl e
         | Inr b \<Rightarrow> if b then Inr True else canStep (nullish (idx xs 2) nil))
      else if isNil (Arr xs) then Inr False
      else if idx xs 0 = SYM_QUOTE \<and> isSym (idx xs 1) then Inr False
      else if idx xs 0 = SYM_LAMBDA then Inr False
      else Inr True)"
  by pat_completeness auto
termination
proof (relation "measure (\<lambda>t. if t = nil then 0 else Suc (size t))")
  show "wf (measure (\<lambda>t. if t = nil then 0 else Suc (size t)))" by simp
next
  fix xs :: "data list"
  assume "idx xs 0 = SYM_CONS"
  then have ne: "Arr xs \<noteq> nil" by (auto simp: nil_def idx_def)
  have "size (idx xs 1) < size (Arr xs)" using size_idx_less [of xs 1] by simp
  with ne show "(nullish (idx xs 1) nil, Arr xs)
      \<in> measure (\<lambda>t. if t = nil then 0 else Suc (size t))"
    by (simp add: nullish_def)
next
  fix xs :: "data list" and x2 :: bool
  assume "idx xs 0 = SYM_CONS"
  then have ne: "Arr xs \<noteq> nil" by (auto simp: nil_def idx_def)
  have "size (idx xs 2) < size (Arr xs)" using size_idx_less [of xs 2] by simp
  with ne show "(nullish (idx xs 2) nil, Arr xs)
      \<in> measure (\<lambda>t. if t = nil then 0 else Suc (size t))"
    by (simp add: nullish_def)
qed

lemmas canStep_Arr = canStep.simps(5)

declare canStep.simps(5) [simp del]

section \<open>rewrite\<close>

fun map_throwing :: "('a \<Rightarrow> error + 'b) \<Rightarrow> 'a list \<Rightarrow> error + 'b list" where
  \<comment> \<open>\<open>xs.map(f)\<close> for an \<open>f\<close> that may throw: the first throw ends the map\<close>
  "map_throwing f [] = Inr []"
| "map_throwing f (x # xs) =
     (case f x of
        Inl e \<Rightarrow> Inl e
      | Inr y \<Rightarrow> (case map_throwing f xs of Inl e \<Rightarrow> Inl e | Inr ys \<Rightarrow> Inr (y # ys)))"

lemma map_throwing_cong [fundef_cong]:
  "xs = ys \<Longrightarrow> (\<And>x. x \<in> set ys \<Longrightarrow> f x = g x) \<Longrightarrow> map_throwing f xs = map_throwing g ys"
  by (induction ys arbitrary: xs) (auto split: sum.splits)

definition delete_bindings :: "data \<Rightarrow> (data \<rightharpoonup> data) \<Rightarrow> (data \<rightharpoonup> data)" where
  \<comment> \<open>\<open>if (isArray(data[1])) for (const binding of data[1])
        if (isSym(binding)) newMapping.delete(binding)\<close>\<close>
  "delete_bindings bs mapping =
     (case bs of
        Arr ps \<Rightarrow> fold (\<lambda>binding m. if isSym binding then m(binding := None) else m) ps mapping
      | _ \<Rightarrow> mapping)"

function rewrite :: "data \<Rightarrow> (data \<rightharpoonup> data) \<Rightarrow> error + data" where
  "rewrite Undefined mapping = Inl NativeTypeError"
| "rewrite (Sym s) mapping =
     Inr (case mapping (Sym s) of None \<Rightarrow> Sym s | Some v \<Rightarrow> nullish v (Sym s))"
| "rewrite (Str s) mapping = Inr (Str s)"
| "rewrite (Num n) mapping = Inr (Num n)"
| "rewrite (Arr xs) mapping =
     (if idx xs 0 = SYM_QUOTE then Inr (Arr xs)
      else if idx xs 0 = SYM_LAMBDA then
        (case rewrite (idx xs 2) (delete_bindings (idx xs 1) mapping) of
           Inl e \<Rightarrow> Inl e
         | Inr body \<Rightarrow> Inr (Arr [SYM_LAMBDA, nullish (idx xs 1) nil, body]))
      else
        (case map_throwing (\<lambda>v. rewrite v mapping) xs of
           Inl e \<Rightarrow> Inl e
         | Inr ys \<Rightarrow> Inr (Arr ys)))"
  by pat_completeness auto
termination
  by (relation "measure (\<lambda>(d, m). size d)") (simp_all add: size_idx_less size_elem_less)

section \<open>step\<close>

fun first_steppable :: "data list \<Rightarrow> error + nat option" where
  \<comment> \<open>\<open>for (let i = 0; i < input.length; i++) if (canStep(input[i])) ...\<close>: the index at
      which the loop returns, None when it runs to the end\<close>
  "first_steppable [] = Inr None"
| "first_steppable (arg # rest) =
     (case canStep arg of
        Inl e \<Rightarrow> Inl e
      | Inr b \<Rightarrow>
          if b then Inr (Some 0)
          else (case first_steppable rest of
                  Inl e \<Rightarrow> Inl e
                | Inr None \<Rightarrow> Inr None
                | Inr (Some i) \<Rightarrow> Inr (Some (Suc i))))"

lemma first_steppable_less: "first_steppable xs = Inr (Some i) \<Longrightarrow> i < length xs"
  by (induction xs arbitrary: i) (auto split: sum.splits if_splits option.splits)

definition bind_params :: "data list \<Rightarrow> data list \<Rightarrow> (data \<rightharpoonup> data)" where
  \<comment> \<open>\<open>for (let i = 0; i < paramNames.length; i++)
        mapping.set(paramNames[i], input[i + 1] ?? nil)\<close>\<close>
  "bind_params paramNames input =
     fold (\<lambda>i m. m(paramNames ! i \<mapsto> nullish (idx input (i + 1)) nil))
       [0..<length paramNames] Map.empty"

definition apply_operator :: "prims \<Rightarrow> data \<Rightarrow> data list \<Rightarrow> error + data" where
  \<comment> \<open>the end of \<open>step\<close>, reached when no element of \<open>input\<close> can step\<close>
  "apply_operator P fn input =
     (case fn of
        Arr f \<Rightarrow>
          if idx f 0 = SYM_LAMBDA then
            (case nullish (idx f 1) nil of
               Arr paramNames \<Rightarrow>
                 if length f = 3 \<and> list_all isSym paramNames
                 then rewrite (idx f 2) (bind_params paramNames input)
                 else Inl (throw_printing fn (NotValidLambda fn))
             | _ \<Rightarrow> Inl (throw_printing fn (NotValidLambda fn)))
          else Inl (throw_printing fn (ExpectedSymbol fn))
      | Sym s \<Rightarrow>
          (case map_of builtins s of
             Some execute \<Rightarrow> execute P (drop 1 input)
           | None \<Rightarrow> Inl (NotDefined fn))
      | _ \<Rightarrow> Inl (throw_printing fn (ExpectedSymbol fn)))"

text \<open>
  \<open>canStep\<close> is true for Symbols and arrays only, so after \<open>isSym(input)\<close> has failed
  \<open>input\<close> is an array; the last branch of the model is never taken.
\<close>

function step :: "prims \<Rightarrow> data \<Rightarrow> error + data" where
  "step P input =
     (case canStep input of
        Inl e \<Rightarrow> Inl e
      | Inr b \<Rightarrow>
          if \<not> b then Inr input
          else if isSym input then Inl (NotDefined input)
          else (case input of
            Arr xs \<Rightarrow>
              (let fn = nullish (idx xs 0) nil in
               if fn = SYM_IF then
                 (case canStep (idx xs 1) of
                    Inl e \<Rightarrow> Inl e
                  | Inr c \<Rightarrow>
                      if c then
                        (case step P (idx xs 1) of
                           Inl e \<Rightarrow> Inl e
                         | Inr v \<Rightarrow> Inr (Arr (idx xs 0 # v # drop 2 xs)))
                      else Inr (if \<not> isNil (idx xs 1) then idx xs 2
                                else nullish (idx xs 3) nil))
               else if fn = SYM_OR then
                 (case canStep (idx xs 1) of
                    Inl e \<Rightarrow> Inl e
                  | Inr c \<Rightarrow>
                      if c then
                        (case step P (idx xs 1) of
                           Inl e \<Rightarrow> Inl e
                         | Inr v \<Rightarrow> Inr (Arr (idx xs 0 # v # drop 2 xs)))
                      else Inr (if isNil (idx xs 1) then idx xs 2 else idx xs 1))
               else if fn = SYM_AND then
                 (case canStep (idx xs 1) of
                    Inl e \<Rightarrow> Inl e
                  | Inr c \<Rightarrow>
                      if c then
                        (case step P (idx xs 1) of
                           Inl e \<Rightarrow> Inl e
                         | Inr v \<Rightarrow> Inr (Arr (idx xs 0 # v # drop 2 xs)))
                      else Inr (if isNil (idx xs 1) then nil else idx xs 2))
               else
                 (case first_steppable xs of
                    Inl e \<Rightarrow> Inl e
                  | Inr None \<Rightarrow> apply_operator P fn xs
                  | Inr (Some i) \<Rightarrow>
                      (case step P (xs ! i) of
                         Inl e \<Rightarrow> Inl e
                       | Inr v \<Rightarrow> Inr (Arr (take i xs @ v # drop (i + 1) xs)))))
          | _ \<Rightarrow> Inl NativeTypeError))"
  by pat_completeness auto
termination
  by (relation "measure (\<lambda>(P, t). size t)")
    (auto simp: size_idx_less size_elem_less dest: first_steppable_less)

declare step.simps [simp del]

section \<open>The driver (showStep)\<close>

fun run :: "prims \<Rightarrow> nat \<Rightarrow> data \<Rightarrow> error + data" where
  \<comment> \<open>\<open>while (i < index && state && canStep(state)) { state = step(state); i++ }\<close>,
      the first argument of \<open>run\<close> after the primitives being \<open>index - i\<close>\<close>
  "run P 0 state = Inr state"
| "run P (Suc n) state =
     (if \<not> truthy state then Inr state
      else (case canStep state of
        Inl e \<Rightarrow> Inl e
      | Inr b \<Rightarrow>
          if \<not> b then Inr state
          else (case step P state of Inl e \<Rightarrow> Inl e | Inr state' \<Rightarrow> run P n state')))"

section \<open>Which rewrite a step performs\<close>



section \<open>Substitution as the spec words it\<close>





section \<open>A stand-in for the JavaScript operators\<close>

definition nan_prims :: prims where
  \<comment> \<open>used only to close examples that apply no arithmetic operator and compare no
      arrays; the theorems themselves hold for every \<open>P\<close>\<close>
  "nan_prims = \<lparr>num_op = (\<lambda>name args. NaN), same_object = (\<lambda>l r path. False)\<rparr>"

section \<open>Facts about the loop of step and the binding of parameters\<close>

lemma canStep_True_cases: "canStep t = Inr True \<Longrightarrow> isSym t \<or> isArray t"
  by (cases t) auto


lemma first_steppable_Some:
  "first_steppable xs = Inr (Some i) \<longleftrightarrow>
     i < length xs \<and> canStep (xs ! i) = Inr True \<and> (\<forall>j<i. canStep (xs ! j) = Inr False)"
proof (induction xs arbitrary: i)
  case Nil
  then show ?case by simp
next
  case (Cons x xs)
  show ?case
  proof (cases i)
    case 0
    then show ?thesis by (auto split: sum.splits option.splits)
  next
    case (Suc k)
    have "first_steppable (x # xs) = Inr (Some (Suc k)) \<longleftrightarrow>
          canStep x = Inr False \<and> first_steppable xs = Inr (Some k)"
      by (auto split: sum.splits option.splits)
    also have "\<dots> \<longleftrightarrow> canStep x = Inr False \<and> k < length xs \<and> canStep (xs ! k) = Inr True \<and>
          (\<forall>j<k. canStep (xs ! j) = Inr False)"
      by (simp add: Cons.IH)
    also have "\<dots> \<longleftrightarrow> Suc k < length (x # xs) \<and> canStep ((x # xs) ! Suc k) = Inr True \<and>
          (\<forall>j<Suc k. canStep ((x # xs) ! j) = Inr False)"
      by (auto simp: less_Suc_eq_0_disj)
    finally show ?thesis by (simp add: Suc)
  qed
qed











section \<open>Object identity in equals\<close>

text \<open>
  An array compared with itself is equal through \<open>r === l\<close>, whatever it holds; two
  arrays of the same content that are not one object are compared element by element, and
  a NaN in them makes them unequal. \<open>(eql A A)\<close> for \<open>A = (cons NaN 1)\<close> gives \<open>(quote true)\<close>
  when both operands are one object and \<open>nil\<close> when they are copies.
\<close>

lemma equals_same_object: "same [] \<Longrightarrow> equals same (Arr xs) (Arr xs)"
  by (subst equals.simps) simp

lemma equals_NaN_copies: "\<not> same [] \<Longrightarrow> \<not> equals same (Arr [Num NaN]) (Arr [Num NaN])"
  by (simp add: equals.simps idx_def num_eq_def)

lemma eql_array_with_NaN:
  "step P (Arr [SYM_EQL, Arr [SYM_CONS, Num NaN, Num (Fin 1)], Arr [SYM_CONS, Num NaN, Num (Fin 1)]])
     = Inr (if same_object P (Arr [SYM_CONS, Num NaN, Num (Fin 1)])
                 (Arr [SYM_CONS, Num NaN, Num (Fin 1)]) []
            then true_term else nil)"
  by (simp add: step.simps canStep_Arr idx_def nullish_def isNil_def apply_operator_def
      builtins_def nil_def equals.simps num_eq_def Let_def)

section \<open>rewrite against the substitution of the spec\<close>








section \<open>Normal forms\<close>

text \<open>
  C10. A Text term (a string that is not a Symbol) is in normal form: \<open>canStep\<close> returns
  false for it and \<open>step\<close> returns it unchanged.
\<close>

theorem text_normal_form: "canStep (Str s) = Inr False \<and> step P (Str s) = Inr (Str s)"
  by (simp add: step.simps)

text \<open>
  C5. Fixed point: whenever \<open>canStep\<close> returns false for a term, \<open>step\<close> returns that
  term unchanged.
\<close>

theorem step_fixed_point: "canStep t = Inr False \<Longrightarrow> step P t = Inr t"
  by (simp add: step.simps)

theorem step_fixed_point_witness:
  "canStep (Arr [SYM_CONS, Num (Fin 1), Str ''a'']) = Inr False \<and>
   step nan_prims (Arr [SYM_CONS, Num (Fin 1), Str ''a''])
     = Inr (Arr [SYM_CONS, Num (Fin 1), Str ''a''])"
proof -
  have h: "canStep (Arr [SYM_CONS, Num (Fin 1), Str ''a'']) = Inr False"
    by (simp add: canStep_Arr idx_def nullish_def)
  show ?thesis using h step_fixed_point [OF h, of nan_prims] by simp
qed

text \<open>
  C2, as the code has it. A List whose head is \<open>lambda\<close> is always in normal form. A List
  whose head is \<open>quote\<close> is in normal form exactly when its second element is a Symbol or
  an empty List; every other quote form, such as \<open>(quote 5)\<close>, can step.
\<close>

theorem quote_lambda_canStep:
  "canStep (Arr (SYM_LAMBDA # rest)) = Inr False \<and>
   canStep (Arr (SYM_QUOTE # rest)) = Inr (\<not> isSym (idx rest 0) \<and> idx rest 0 \<noteq> Arr [])"
  by (cases rest) (auto simp: canStep_Arr idx_def isNil_def)

text \<open>The claim as written fails at \<open>(quote 5)\<close>: its head is \<open>quote\<close> and it can step.\<close>

theorem quote_number_counterexample: "canStep (Arr [SYM_QUOTE, Num (Fin 5)]) = Inr True"
  by (simp add: canStep_Arr idx_def isNil_def)

text \<open>
  C8, as the code has it. The empty List is not \<open>nil\<close> and \<open>isNil\<close> is false for it, but
  \<open>canStep\<close> returns true for it; stepping it, alone or as the operator of an application
  with any operands, raises the "expected symbol" TypeError.
\<close>

theorem empty_list_steps_to_error:
  "Arr [] \<noteq> nil \<and> \<not> isNil (Arr []) \<and> canStep (Arr []) = Inr True \<and>
   step P (Arr []) = Inl (ExpectedSymbol nil) \<and>
   step P (Arr (Arr [] # args)) = Inl (ExpectedSymbol nil)"
proof -
  have c: "canStep (Arr []) = Inr True" by (simp add: canStep_Arr idx_def isNil_def)
  have pn: "throw_printing (Arr [SYM_QUOTE, Arr []]) e = e" for e
    by (simp add: throw_printing_def idx_def nullish_def)
  have s: "step P (Arr []) = Inl (ExpectedSymbol nil)"
    by (simp add: step.simps c idx_def nullish_def Let_def apply_operator_def nil_def pn)
  have c2: "canStep (Arr (Arr [] # args)) = Inr True"
    by (simp add: canStep_Arr idx_def isNil_def)
  have "step P (Arr (Arr [] # args)) = Inl (ExpectedSymbol nil)"
    by (subst step.simps) (simp add: c2 c s idx_def nullish_def Let_def)
  with c s show ?thesis by (simp add: nil_def isNil_def idx_def)
qed

text \<open>The claim as written fails: \<open>canStep\<close> does not return false for the empty List.\<close>

theorem empty_list_counterexample: "canStep (Arr []) \<noteq> Inr False"
  by (simp add: canStep_Arr idx_def isNil_def)

section \<open>Errors\<close>

text \<open>
  C9. Stepping a bare Symbol that is not the name of a builtin raises the "is not
  defined" TypeError (the spec's UndefinedSymbol), and stepping \<open>(car n)\<close> for a number
  \<open>n\<close>, such as \<open>(car 5)\<close>, raises the "expected cons pair" TypeError; in both cases
  \<open>step\<close> returns no term.
\<close>

theorem undefined_symbol_and_car:
  "(map_of builtins s = None \<longrightarrow> step P (Sym s) = Inl (NotDefined (Sym s))) \<and>
   step P (Arr [SYM_CAR, Num n]) = Inl ExpectedConsPair"
proof -
  have "canStep (Arr [SYM_CAR, Num n]) = Inr True"
    by (simp add: canStep_Arr idx_def isNil_def)
  moreover have "first_steppable [SYM_CAR, Num n] = Inr None"
    by (simp add: builtins_def)
  ultimately have "step P (Arr [SYM_CAR, Num n]) = Inl ExpectedConsPair"
    by (simp add: step.simps idx_def nullish_def Let_def apply_operator_def builtins_def
        assertCons_def)
  then show ?thesis by (simp add: step.simps)
qed

theorem undefined_symbol_and_car_witness:
  "map_of builtins ''undefined-name'' = None \<and>
   step nan_prims (Sym ''undefined-name'') = Inl (NotDefined (Sym ''undefined-name'')) \<and>
   step nan_prims (Arr [SYM_CAR, Num (Fin 5)]) = Inl ExpectedConsPair"
proof -
  have h: "map_of builtins ''undefined-name'' = None" by (simp add: builtins_def)
  show ?thesis
    using h undefined_symbol_and_car [of "''undefined-name''" nan_prims "Fin 5"] by simp
qed

section \<open>Builtins\<close>

text \<open>
  C3 at a failing input. \<open>(eql (cons 1 2) (cons 1))\<close> steps to \<open>(quote true)\<close> although the
  two lists have different lengths: \<open>equals\<close> visits the indices of its second argument
  only. With the arguments exchanged the result is \<open>nil\<close>.
\<close>

theorem eql_accepts_shorter_list:
  "step P (Arr [SYM_EQL, Arr [SYM_CONS, Num (Fin 1), Num (Fin 2)], Arr [SYM_CONS, Num (Fin 1)]])
     = Inr true_term \<and>
   step P (Arr [SYM_EQL, Arr [SYM_CONS, Num (Fin 1)], Arr [SYM_CONS, Num (Fin 1), Num (Fin 2)]])
     = Inr nil"
  by (simp add: step.simps canStep_Arr idx_def nullish_def isNil_def apply_operator_def
      builtins_def nil_def equals.simps num_eq_def Let_def)

section \<open>Special forms\<close>

text \<open>
  C6. Short-circuit. Run for any positive number of steps, \<open>(if (quote true) 1 (div 1 0))\<close>
  raises no error and ends in \<open>1\<close>. For all \<open>A\<close> and \<open>B\<close>, one step of
  \<open>(if (quote true) A B)\<close> gives \<open>A\<close> and the run goes on from \<open>A\<close>, so \<open>B\<close> is never
  reduced; one step of \<open>(if (quote ()) A B)\<close> gives \<open>B\<close> (\<open>nil\<close> when \<open>B\<close> is undefined)
  and the run goes on from there, so \<open>A\<close> is never reduced.
\<close>

theorem if_short_circuit:
  "run P (Suc n) (Arr [SYM_IF, true_term, Num (Fin 1), Arr [SYM_DIV, Num (Fin 1), Num (Fin 0)]])
     = Inr (Num (Fin 1)) \<and>
   step P (Arr [SYM_IF, true_term, A, B]) = Inr A \<and>
   step P (Arr [SYM_IF, nil, A, B]) = Inr (nullish B nil) \<and>
   run P (Suc n) (Arr [SYM_IF, true_term, A, B]) = run P n A \<and>
   run P (Suc n) (Arr [SYM_IF, nil, A, B]) = run P n (nullish B nil)"
proof -
  have 1: "step P (Arr [SYM_IF, true_term, A, B]) = Inr A" for A B
    by (simp add: step.simps canStep_Arr idx_def nullish_def isNil_def true_term_def Let_def)
  have 2: "step P (Arr [SYM_IF, nil, A, B]) = Inr (nullish B nil)" for A B
    by (simp add: step.simps canStep_Arr idx_def nullish_def isNil_def nil_def Let_def)
  have c: "canStep (Arr [SYM_IF, c, A, B]) = Inr True" for c A B
    by (simp add: canStep_Arr idx_def isNil_def)
  have 3: "run P (Suc n) (Arr [SYM_IF, true_term, A, B]) = run P n A" for A B
    by (simp add: 1 c)
  have 4: "run P (Suc n) (Arr [SYM_IF, nil, A, B]) = run P n (nullish B nil)" for A B
    by (simp add: 2 c)
  have "run P n (Num (Fin 1)) = Inr (Num (Fin 1))" by (cases n) simp_all
  with 1 2 3 4 show ?thesis by simp
qed

section \<open>Applications\<close>

text \<open>
  The mapping of the next theorem, read at a parameter: when no name occurs twice among
  the parameters, parameter \<open>i\<close> is bound to operand \<open>i\<close>, or to \<open>nil\<close> when there are
  fewer operands.
\<close>

lemma positional_binding:
  assumes "distinct params" and "i < length params"
  shows "map_of (rev (zip params (take (length params) (args @ replicate (length params) nil))))
           (params ! i) = Some (if i < length args then args ! i else nil)"
proof -
  let ?vs = "take (length params) (args @ replicate (length params) nil)"
  have len: "length params = length ?vs" by simp
  have d: "distinct (map fst (zip params ?vs))" using assms(1) len by (simp add: map_fst_zip)
  then have "distinct (map fst (rev (zip params ?vs)))" by (simp add: rev_map [symmetric])
  with d have "map_of (rev (zip params ?vs)) = map_of (zip params ?vs)"
    by (simp add: map_of_inject_set)
  moreover have "map_of (zip params ?vs) (params ! i) = Some (?vs ! i)"
    using len assms by (intro map_of_zip_nth) simp_all
  moreover have "?vs ! i = (if i < length args then args ! i else nil)"
    using assms(2) by (simp add: nth_append)
  ultimately show ?thesis by simp
qed




text \<open>
  C4, as the code has it. Let \<open>canStep\<close> be true for a List whose head is not \<open>if\<close>,
  \<open>and\<close> or \<open>or\<close>, and let \<open>i\<close> be the position of its leftmost element that can step.
  Then \<open>step\<close> steps that element: it raises the error that this raises, or else returns
  the list of the same length with element \<open>i\<close> replaced by its one-step reduction and
  every other element unchanged.
\<close>

theorem leftmost_reducible_element:
  assumes "canStep (Arr xs) = Inr True"
    and "idx xs 0 \<noteq> SYM_IF" and "idx xs 0 \<noteq> SYM_AND" and "idx xs 0 \<noteq> SYM_OR"
    and "i < length xs" and "canStep (xs ! i) = Inr True"
    and "\<forall>j<i. canStep (xs ! j) = Inr False"
  shows "step P (Arr xs) =
         (case step P (xs ! i) of Inl e \<Rightarrow> Inl e | Inr v \<Rightarrow> Inr (Arr (xs[i := v])))"
proof -
  have f: "first_steppable xs = Inr (Some i)"
    using assms(5-7) by (simp add: first_steppable_Some)
  have h: "nullish (idx xs 0) nil \<noteq> SYM_IF" "nullish (idx xs 0) nil \<noteq> SYM_AND"
    "nullish (idx xs 0) nil \<noteq> SYM_OR"
    using assms(2-4) by (simp_all add: nullish_def nil_def)
  have u: "take i xs @ v # drop (Suc i) xs = xs[i := v]" for v
    using assms(5) by (simp add: upd_conv_take_nth_drop)
  show ?thesis
    by (subst step.simps) (simp add: assms(1) f h u Let_def split: sum.splits)
qed

theorem leftmost_reducible_element_witness:
  "canStep (Arr [SYM_ADD, Arr [SYM_IF, true_term, Num (Fin 1), Num (Fin 2)], Num (Fin 3)]) = Inr True \<and>
   canStep ([SYM_ADD, Arr [SYM_IF, true_term, Num (Fin 1), Num (Fin 2)], Num (Fin 3)] ! 1) = Inr True \<and>
   canStep ([SYM_ADD, Arr [SYM_IF, true_term, Num (Fin 1), Num (Fin 2)], Num (Fin 3)] ! 0)
     = Inr False \<and>
   step nan_prims (Arr [SYM_ADD, Arr [SYM_IF, true_term, Num (Fin 1), Num (Fin 2)], Num (Fin 3)])
     = Inr (Arr [SYM_ADD, Num (Fin 1), Num (Fin 3)])"
proof -
  let ?c = "Arr [SYM_IF, true_term, Num (Fin 1), Num (Fin 2)]"
  let ?xs = "[SYM_ADD, ?c, Num (Fin 3)]"
  have 1: "canStep (Arr ?xs) = Inr True" by (simp add: canStep_Arr idx_def isNil_def)
  have 2: "idx ?xs 0 \<noteq> SYM_IF" "idx ?xs 0 \<noteq> SYM_AND" "idx ?xs 0 \<noteq> SYM_OR"
    by (simp_all add: idx_def)
  have 3: "(1::nat) < length ?xs" by simp
  have 4: "canStep (?xs ! 1) = Inr True" by (simp add: canStep_Arr idx_def isNil_def)
  have 5: "\<forall>j<1. canStep (?xs ! j) = Inr False" by (simp add: builtins_def)
  have 6: "step nan_prims ?c = Inr (Num (Fin 1))"
    by (simp add: step.simps canStep_Arr idx_def nullish_def isNil_def true_term_def Let_def)
  have 7: "canStep (?xs ! 0) = Inr False" by (simp add: builtins_def)
  show ?thesis
    using 1 4 6 7 leftmost_reducible_element [OF 1 2 3 4 5, of nan_prims] by simp
qed

text \<open>
  The claim as written fails at \<open>(add x 1)\<close>: the leftmost element that can step is the
  unbound symbol \<open>x\<close>, and \<open>step\<close> raises instead of returning a list. It also fails at
  \<open>(cons 1 2 (add 1 2))\<close>: the element \<open>(add 1 2)\<close> can step, but \<open>canStep\<close> is false for
  the list and \<open>step\<close> returns it unchanged.
\<close>

theorem leftmost_reducible_element_counterexample:
  "canStep SYM_ADD = Inr False \<and> canStep (Sym ''x'') = Inr True \<and>
   step nan_prims (Arr [SYM_ADD, Sym ''x'', Num (Fin 1)]) = Inl (NotDefined (Sym ''x'')) \<and>
   canStep (Arr [SYM_ADD, Num (Fin 1), Num (Fin 2)]) = Inr True \<and>
   step nan_prims (Arr [SYM_CONS, Num (Fin 1), Num (Fin 2), Arr [SYM_ADD, Num (Fin 1), Num (Fin 2)]])
     = Inr (Arr [SYM_CONS, Num (Fin 1), Num (Fin 2), Arr [SYM_ADD, Num (Fin 1), Num (Fin 2)]])"
  by (simp add: step.simps canStep_Arr idx_def nullish_def isNil_def Let_def builtins_def)

section \<open>Progress\<close>





end
